theory Spec2Isabelle
  imports Main
begin

section \<open>Values: errors, results, XML elements\<close>

text \<open>
  The file \<^verbatim>\<open>decode_response.go\<close> is embedded function by function. A Go function that
  returns \<^verbatim>\<open>error\<close> becomes a function into \<open>'a result\<close>; a Go panic (an explicit
  \<^verbatim>\<open>panic(...)\<close> or a nil pointer dereference) is the third constructor, so that it is
  never confused with an ordinary error return.

  An error value is compared by identity in the source (\<^verbatim>\<open>err == dsig.ErrMissingSignature\<close>).
  The two package-level sentinels are constructors of their own; an error made by
  \<^verbatim>\<open>fmt.Errorf\<close> keeps its format string and its argument; any other error of a library is
  \<open>LibError\<close> with its message.
\<close>

type_synonym bytes = string
type_synonym addr = nat

datatype error =
    ErrMissingSignature
  | ErrTraversalHalted
  | LibError string
  | ErrInvalidValue (Reason: nat) (Key: string) (Expected: string) (Actual: string)
  | Errorf string
  | Errorf_s string string
  | Errorf_v string "error option"

datatype 'a result = Ok 'a | Error error | Panicked string

text \<open>
  An \<^verbatim>\<open>*etree.Element\<close>. \<open>addr\<close> is the pointer: two elements are the same object iff
  their addresses agree. \<open>Parent\<close> is the parent pointer (\<open>None\<close> is nil) paired with
  the \<^verbatim>\<open>Tag\<close> that is read through it; \<open>Child\<close> is what \<^verbatim>\<open>ChildElements()\<close>
  returns, in document order. Character data is kept in \<open>Text\<close>: the source never
  looks at it.
\<close>

datatype element = Element
  (addr: addr) (Space: string) (Tag: string) (Attr: "(string \<times> string) list")
  (Text: string) (Parent: "(addr \<times> string) option") (Child: "element list")

fun set_Child :: "element \<Rightarrow> element list \<Rightarrow> element" where
  "set_Child (Element a sp t at tx p cs) cs' = Element a sp t at tx p cs'"

fun set_Parent :: "element \<Rightarrow> (addr \<times> string) option \<Rightarrow> element" where
  "set_Parent (Element a sp t at tx p cs) p' = Element a sp t at tx p' cs"

definition Parent_addr :: "element \<Rightarrow> addr option" where
  "Parent_addr x = map_option fst (Parent x)"

text \<open>
  \<^verbatim>\<open>etree.Element.RemoveChild\<close>: removes the child that is the object \<open>t\<close> and returns it,
  or returns nil when \<open>t\<close> is not a child. The model returns the updated parent, or
  \<open>None\<close> for nil.
\<close>

fun remove_addr :: "addr \<Rightarrow> element list \<Rightarrow> element list" where
  "remove_addr a [] = []"
| "remove_addr a (c # cs) = (if addr c = a then cs else c # remove_addr a cs)"

definition RemoveChild :: "element \<Rightarrow> element \<Rightarrow> element option" where
  "RemoveChild e t =
     (if addr t \<in> set (map addr (Child e))
      then Some (set_Child e (remove_addr (addr t) (Child e)))
      else None)"

text \<open>
  \<^verbatim>\<open>etree.Element.AddChild\<close>: the token is first removed from its current parent, then
  appended as the last child of \<open>e\<close>, its parent pointer set to \<open>e\<close>. Only a parent that
  is \<open>e\<close> itself is visible here.
\<close>

definition AddChild :: "element \<Rightarrow> element \<Rightarrow> element" where
  "AddChild e t =
     (let e' = (if Parent_addr t = Some (addr e)
                then (case RemoveChild e t of Some e1 \<Rightarrow> e1 | None \<Rightarrow> e) else e)
      in set_Child e' (Child e' @ [set_Parent t (Some (addr e, Tag e))]))"

text \<open>A parsed \<^verbatim>\<open>etree.Document\<close>; \<^verbatim>\<open>doc.Root()\<close> is nil for a document without element.\<close>

record Document =
  Root :: "element option"

section \<open>Configuration and external capabilities\<close>

type_synonym NSContext = "(string \<times> string) list"

record Certificate =
  Certificate :: "bytes list"
  PrivateKey :: "string option"

text \<open>
  \<^verbatim>\<open>sp.SPKeyStore\<close> is an interface value: nil (\<open>None\<close> below), a \<^verbatim>\<open>dsig.TLSCertKeyStore\<close>,
  or any other implementation, of which only what \<^verbatim>\<open>GetKeyPair()\<close> returns matters.
\<close>

datatype KeyStore =
    TLSCertKeyStore Certificate
  | OtherKeyStore "error + (string \<times> bytes)"

record ValidationContext =
  CertificateStore :: "bytes list"
  ctxClock :: "nat option"

record Response =
  Destination :: string
  Version :: string

type_synonym EncryptedAssertion = string

record SAMLServiceProvider =
  IDPCertificateStore :: "bytes list"
  Clock :: "nat option"
  AssertionConsumerServiceURL :: string
  SkipSignatureValidation :: bool
  SPKeyStore :: "KeyStore option"

text \<open>
  What the source calls and does not define: the libraries (base64, flate, etree,
  etreeutils, goxmldsig, encoding/xml), and the declarations of this package that are
  in other files (the constants, \<^verbatim>\<open>EncryptedAssertion.DecryptBytes\<close>, and the checks of
  \<^verbatim>\<open>sp.Validate\<close> that follow the attribute check). They are parameters, but for
  the three operations on the tree that the passes are made of (\<open>RemoveChild\<close> and
  \<open>AddChild\<close> above, \<open>NSFindIterate\<close> below), which are written out.
\<close>

record env =
  DecodeString :: "string \<Rightarrow> error + bytes"
  ReadFromBytes :: "bytes \<Rightarrow> error + Document"
  flate_ReadAll :: "bytes \<Rightarrow> error + bytes"
  WriteToBytes :: "element \<Rightarrow> error + bytes"
  Unmarshal_Response :: "bytes \<Rightarrow> error + Response"
  Unmarshal_EncryptedAssertion :: "bytes \<Rightarrow> error + EncryptedAssertion"
  DefaultNSContext :: NSContext
  SubContext :: "NSContext \<Rightarrow> element \<Rightarrow> error + NSContext"
  LookupPrefix :: "NSContext \<Rightarrow> string \<Rightarrow> error + string"
  NSDetatch :: "NSContext \<Rightarrow> element \<Rightarrow> error + element"
  dsig_Validate :: "ValidationContext \<Rightarrow> element \<Rightarrow> element option \<times> error option"
  DecryptBytes :: "EncryptedAssertion \<Rightarrow> Certificate \<Rightarrow> error + bytes"
  Validate_rest :: "SAMLServiceProvider \<Rightarrow> Response \<Rightarrow> error option"
  SAMLAssertionNamespace :: string
  AssertionTag :: string
  EncryptedAssertionTag :: string
  DestinationAttr :: string
  ReasonUnsupported :: nat

section \<open>The functions of decode\_response.go\<close>

definition validationContext :: "SAMLServiceProvider \<Rightarrow> ValidationContext" where
  "validationContext sp =
     \<lparr>CertificateStore = IDPCertificateStore sp, ctxClock = Clock sp\<rparr>"

text \<open>
  \<^verbatim>\<open>validateResponseAttributes\<close>; \<open>None\<close> is the nil error. The first
  \<^verbatim>\<open>ErrInvalidValue\<close> literal leaves \<^verbatim>\<open>Reason\<close> and so has the zero value there.
\<close>

definition validateResponseAttributes ::
  "env \<Rightarrow> SAMLServiceProvider \<Rightarrow> Response \<Rightarrow> error option" where
  "validateResponseAttributes env sp response =
     (if Destination response \<noteq> AssertionConsumerServiceURL sp then
        Some (ErrInvalidValue 0 (DestinationAttr env)
                (AssertionConsumerServiceURL sp) (Destination response))
      else if Version response \<noteq> ''2.0'' then
        Some (ErrInvalidValue (ReasonUnsupported env) ''SAML version'' ''2.0''
                (Version response))
      else None)"

text \<open>
  \<^verbatim>\<open>xmlUnmarshalElement\<close>, once for each type of \<^verbatim>\<open>obj\<close> the source passes.
  \<^verbatim>\<open>doc.SetRoot(el)\<close> only re-parents \<open>el\<close> under a new document.
\<close>

definition xmlUnmarshalElement ::
  "env \<Rightarrow> (bytes \<Rightarrow> error + 'a) \<Rightarrow> element \<Rightarrow> error + 'a" where
  "xmlUnmarshalElement env unmarshal e =
     (case WriteToBytes env e of
        Inl err \<Rightarrow> Inl err
      | Inr data \<Rightarrow> (case unmarshal data of Inl err \<Rightarrow> Inl err | Inr obj \<Rightarrow> Inr obj))"

definition getDecryptCert :: "SAMLServiceProvider \<Rightarrow> error + Certificate" where
  "getDecryptCert sp =
     (case SPKeyStore sp of
        None \<Rightarrow> Inl (Errorf ''no decryption certs available'')
      | Some (TLSCertKeyStore crt) \<Rightarrow> Inr crt
      | Some (OtherKeyStore kp) \<Rightarrow>
          (case kp of
             Inl err \<Rightarrow> Inl (Errorf_v ''error getting keypair: %v'' (Some err))
           | Inr (pk, cert) \<Rightarrow> Inr \<lparr>Certificate = [cert], PrivateKey = Some pk\<rparr>))"

subsection \<open>State of a pass\<close>

text \<open>
  The two closures mutate the response element \<^verbatim>\<open>el\<close> and the local variables they
  capture. \<open>calls\<close> is no variable of the source: it records, in order, the calls a
  pass makes to the capabilities, so that which calls happen, and how often, can be
  stated.
\<close>

datatype call =
    CallNSDetatch addr
  | CallUnmarshal addr
  | CallGetDecryptCert
  | CallDecryptBytes Certificate
  | CallReadFromBytes bytes
  | CallValidate addr

record pass_state =
  el :: element
  calls :: "call list"

record decrypt_state = pass_state +
  decryptCert :: "Certificate option"

record assert_state = pass_state +
  signedAssertions :: int
  unsignedAssertions :: int

definition log_call :: "call \<Rightarrow> 'a pass_state_scheme \<Rightarrow> 'a pass_state_scheme" where
  "log_call c s = s\<lparr>calls := calls s @ [c]\<rparr>"

definition nil_dereference :: string where
  "nil_dereference = ''invalid memory address or nil pointer dereference''"

subsection \<open>etreeutils.NSFindIterate\<close>

text \<open>
  Both passes are one call of \<^verbatim>\<open>etreeutils.NSFindIterate\<close>, a function of the library
  goxmldsig. It is written out after the library: a depth-first traversal, the element
  first and then its child elements in order, that calls the handler on every element
  with the sought tag in the sought namespace, stops at the first error, and turns the
  error \<^verbatim>\<open>ErrTraversalHalted\<close> into nil.

  \<^verbatim>\<open>NSTraverse\<close> derives the namespace context of an element, calls the handler on
  it, then walks the child elements it has at that moment. The handlers of this file
  change the child list of \<^verbatim>\<open>el\<close> only, so below \<^verbatim>\<open>el\<close> the walk is over the
  elements as they are; for \<^verbatim>\<open>el\<close> itself the children are read from the state after
  the handler has run.
\<close>

fun NSTraverse ::
  "env \<Rightarrow> (NSContext \<Rightarrow> element \<Rightarrow> 's \<Rightarrow> 's \<times> unit result) \<Rightarrow>
     NSContext \<Rightarrow> element \<Rightarrow> 's \<Rightarrow> 's \<times> unit result"
and NSTraverse_range ::
  "env \<Rightarrow> (NSContext \<Rightarrow> element \<Rightarrow> 's \<Rightarrow> 's \<times> unit result) \<Rightarrow>
     NSContext \<Rightarrow> element list \<Rightarrow> 's \<Rightarrow> 's \<times> unit result" where
  "NSTraverse env handle ctx (Element a sp t at tx p cs) s =
     (case SubContext env ctx (Element a sp t at tx p cs) of
        Inl err \<Rightarrow> (s, Error err)
      | Inr ctx' \<Rightarrow>
          (case handle ctx' (Element a sp t at tx p cs) s of
             (s', Ok _) \<Rightarrow> NSTraverse_range env handle ctx' cs s'
           | (s', r) \<Rightarrow> (s', r)))"
| "NSTraverse_range env handle ctx [] s = (s, Ok ())"
| "NSTraverse_range env handle ctx (c # cs) s =
     (case NSTraverse env handle ctx c s of
        (s', Ok _) \<Rightarrow> NSTraverse_range env handle ctx cs s'
      | (s', r) \<Rightarrow> (s', r))"

definition NSTraverse_root ::
  "env \<Rightarrow> (NSContext \<Rightarrow> element \<Rightarrow> 'a pass_state_scheme \<Rightarrow> 'a pass_state_scheme \<times> unit result) \<Rightarrow>
     NSContext \<Rightarrow> 'a pass_state_scheme \<Rightarrow> 'a pass_state_scheme \<times> unit result" where
  "NSTraverse_root env handle ctx s =
     (case SubContext env ctx (el s) of
        Inl err \<Rightarrow> (s, Error err)
      | Inr ctx' \<Rightarrow>
          (case handle ctx' (el s) s of
             (s', Ok _) \<Rightarrow> NSTraverse_range env handle ctx' (Child (el s')) s'
           | (s', r) \<Rightarrow> (s', r)))"

text \<open>The handler \<^verbatim>\<open>NSFindIterateCtx\<close> gives to the traversal.\<close>

definition NSFind_handle ::
  "env \<Rightarrow> string \<Rightarrow> string \<Rightarrow> (NSContext \<Rightarrow> element \<Rightarrow> 's \<Rightarrow> 's \<times> unit result) \<Rightarrow>
     NSContext \<Rightarrow> element \<Rightarrow> 's \<Rightarrow> 's \<times> unit result" where
  "NSFind_handle env namespace tag handleFn ctx x s =
     (case SubContext env ctx x of
        Inl err \<Rightarrow> (s, Error err)
      | Inr ctx' \<Rightarrow>
          (case LookupPrefix env ctx' (Space x) of
             Inl err \<Rightarrow> (s, Error err)
           | Inr currentNS \<Rightarrow>
               if currentNS = namespace \<and> Tag x = tag then handleFn ctx x s
               else (s, Ok ())))"

definition NSFindIterate ::
  "env \<Rightarrow> string \<Rightarrow> string \<Rightarrow>
     (NSContext \<Rightarrow> element \<Rightarrow> 'a pass_state_scheme \<Rightarrow> 'a pass_state_scheme \<times> unit result) \<Rightarrow>
     'a pass_state_scheme \<Rightarrow> 'a pass_state_scheme \<times> unit result" where
  "NSFindIterate env namespace tag handleFn s =
     (case NSTraverse_root env (NSFind_handle env namespace tag handleFn)
             (DefaultNSContext env) s of
        (s', Error err) \<Rightarrow>
          if err = ErrTraversalHalted then (s', Ok ()) else (s', Error err)
      | (s', r) \<Rightarrow> (s', r))"

subsection \<open>decryptAssertions\<close>

text \<open>
  Lines 112 to 117 of the closure \<^verbatim>\<open>decryptAssertion\<close>: the captured variable
  \<^verbatim>\<open>decryptCert\<close> is filled by \<^verbatim>\<open>sp.getDecryptCert()\<close> when it is nil, and stays nil
  when that call fails.
\<close>

definition resolveDecryptCert ::
  "SAMLServiceProvider \<Rightarrow> decrypt_state \<Rightarrow> decrypt_state \<times> (error + Certificate)" where
  "resolveDecryptCert sp s =
     (case decryptCert s of
        Some c \<Rightarrow> (s, Inr c)
      | None \<Rightarrow>
          (case getDecryptCert sp of
             Inl err \<Rightarrow> (log_call CallGetDecryptCert s, Inl err)
           | Inr c \<Rightarrow> (log_call CallGetDecryptCert (s\<lparr>decryptCert := Some c\<rparr>), Inr c)))"

text \<open>Lines 130 to 137: the encrypted element is replaced by the decrypted root.\<close>

definition replaceEncrypted ::
  "element \<Rightarrow> element option \<Rightarrow> decrypt_state \<Rightarrow> decrypt_state \<times> unit result" where
  "replaceEncrypted encryptedElement root s =
     (case RemoveChild (el s) encryptedElement of
        None \<Rightarrow> (s, Panicked ''unable to remove encrypted assertion'')
      | Some e1 \<Rightarrow>
          (case root of
             None \<Rightarrow> (s\<lparr>el := e1\<rparr>, Panicked nil_dereference)
           | Some r \<Rightarrow> (s\<lparr>el := AddChild e1 r\<rparr>, Ok ())))"

text \<open>
  The closure \<^verbatim>\<open>decryptAssertion\<close> (lines 96 to 138). When \<^verbatim>\<open>Parent()\<close> is nil the
  comparison with \<^verbatim>\<open>el\<close> is true and \<^verbatim>\<open>Parent().Tag\<close> dereferences nil. The last
  \<^verbatim>\<open>fmt.Errorf\<close> formats \<^verbatim>\<open>derr\<close>, which is nil at that point.
\<close>

definition decryptAssertion ::
  "env \<Rightarrow> SAMLServiceProvider \<Rightarrow> NSContext \<Rightarrow> element \<Rightarrow> decrypt_state \<Rightarrow>
     decrypt_state \<times> unit result" where
  "decryptAssertion env sp ctx encryptedElement s =
     (if Parent_addr encryptedElement \<noteq> Some (addr (el s)) then
        (case Parent encryptedElement of
           None \<Rightarrow> (s, Panicked nil_dereference)
         | Some p \<Rightarrow>
             (s, Error (Errorf_s
                ''found encrypted assertion with unexpected parent element: %s'' (snd p))))
      else
        (let s1 = log_call (CallNSDetatch (addr encryptedElement)) s in
         case NSDetatch env ctx encryptedElement of
           Inl err \<Rightarrow>
             (s1, Error (Errorf_v ''unable to detach encrypted assertion: %v'' (Some err)))
         | Inr detached \<Rightarrow>
             (let s2 = log_call (CallUnmarshal (addr detached)) s1 in
              case xmlUnmarshalElement env (Unmarshal_EncryptedAssertion env) detached of
                Inl err \<Rightarrow>
                  (s2, Error (Errorf_v ''unable to unmarshal encrypted assertion: %v''
                                (Some err)))
              | Inr encryptedAssertion \<Rightarrow>
                  (case resolveDecryptCert sp s2 of
                     (s3, Inl err) \<Rightarrow>
                       (s3, Error (Errorf_v ''unable to get decryption certificate: %v''
                                     (Some err)))
                   | (s3, Inr cert) \<Rightarrow>
                       (let s4 = log_call (CallDecryptBytes cert) s3 in
                        case DecryptBytes env encryptedAssertion cert of
                          Inl derr \<Rightarrow>
                            (s4, Error (Errorf_v
                               ''unable to decrypt encrypted assertion: %v'' (Some derr)))
                        | Inr raw \<Rightarrow>
                            (let s5 = log_call (CallReadFromBytes raw) s4 in
                             case ReadFromBytes env raw of
                               Inl err \<Rightarrow>
                                 (s5, Error (Errorf_v
                                    ''unable to create element from decrypted assertion bytes: %v''
                                    None))
                             | Inr doc \<Rightarrow>
                                 replaceEncrypted encryptedElement (Root doc) s5))))))"

definition decryptAssertions_init :: "element \<Rightarrow> decrypt_state" where
  "decryptAssertions_init e = \<lparr>el = e, calls = [], decryptCert = None\<rparr>"

definition decryptAssertions ::
  "env \<Rightarrow> SAMLServiceProvider \<Rightarrow> element \<Rightarrow> decrypt_state \<times> unit result" where
  "decryptAssertions env sp e =
     NSFindIterate env (SAMLAssertionNamespace env) (EncryptedAssertionTag env)
       (decryptAssertion env sp) (decryptAssertions_init e)"

subsection \<open>validateElementSignature, validateAssertionSignatures\<close>

definition validateElementSignature ::
  "env \<Rightarrow> SAMLServiceProvider \<Rightarrow> element \<Rightarrow> element option \<times> error option" where
  "validateElementSignature env sp e = dsig_Validate env (validationContext sp) e"

text \<open>Lines 172 to 183 of the closure \<^verbatim>\<open>validateAssertion\<close>.\<close>

definition replaceUnverified ::
  "element \<Rightarrow> element option \<Rightarrow> assert_state \<Rightarrow> assert_state \<times> unit result" where
  "replaceUnverified unverifiedAssertion assertion s =
     (case RemoveChild (el s) unverifiedAssertion of
        None \<Rightarrow> (s, Panicked ''unable to remove assertion'')
      | Some e1 \<Rightarrow>
          (case assertion of
             None \<Rightarrow> (s\<lparr>el := e1\<rparr>, Panicked nil_dereference)
           | Some a \<Rightarrow>
               (s\<lparr>el := AddChild e1 a, signedAssertions := signedAssertions s + 1\<rparr>,
                Ok ())))"

text \<open>
  The closure \<^verbatim>\<open>validateAssertion\<close> (lines 154 to 184). The counters are Go
  \<^verbatim>\<open>int\<close>s; they count elements of a tree held in memory and cannot wrap.
\<close>

definition validateAssertion ::
  "env \<Rightarrow> SAMLServiceProvider \<Rightarrow> NSContext \<Rightarrow> element \<Rightarrow> assert_state \<Rightarrow>
     assert_state \<times> unit result" where
  "validateAssertion env sp ctx unverifiedAssertion s =
     (if Parent_addr unverifiedAssertion \<noteq> Some (addr (el s)) then
        (case Parent unverifiedAssertion of
           None \<Rightarrow> (s, Panicked nil_dereference)
         | Some p \<Rightarrow>
             (s, Error (Errorf_s
                ''found assertion with unexpected parent element: %s'' (snd p))))
      else
        (let s1 = log_call (CallNSDetatch (addr unverifiedAssertion)) s in
         case NSDetatch env ctx unverifiedAssertion of
           Inl err \<Rightarrow>
             (s1, Error (Errorf_v ''unable to detach unverified assertion: %v'' (Some err)))
         | Inr detached \<Rightarrow>
             (let s2 = log_call (CallValidate (addr detached)) s1 in
              case dsig_Validate env (validationContext sp) detached of
                (assertion, Some err) \<Rightarrow>
                  if err = ErrMissingSignature then
                    (s2\<lparr>unsignedAssertions := unsignedAssertions s2 + 1\<rparr>, Ok ())
                  else (s2, Error err)
              | (assertion, None) \<Rightarrow>
                  replaceUnverified unverifiedAssertion assertion s2)))"

definition validateAssertionSignatures_init :: "element \<Rightarrow> assert_state" where
  "validateAssertionSignatures_init e =
     \<lparr>el = e, calls = [], signedAssertions = 0, unsignedAssertions = 0\<rparr>"

definition validateAssertionSignatures ::
  "env \<Rightarrow> SAMLServiceProvider \<Rightarrow> element \<Rightarrow> assert_state \<times> unit result" where
  "validateAssertionSignatures env sp e =
     (case NSFindIterate env (SAMLAssertionNamespace env) (AssertionTag env)
             (validateAssertion env sp) (validateAssertionSignatures_init e) of
        (s, Ok _) \<Rightarrow>
          if signedAssertions s > 0 \<and> unsignedAssertions s > 0 then
            (s, Error (Errorf ''invalid to have both signed and unsigned assertions''))
          else if signedAssertions s < 1 then (s, Error ErrMissingSignature)
          else (s, Ok ())
      | (s, r) \<Rightarrow> (s, r))"

subsection \<open>ValidateEncodedResponse\<close>

text \<open>
  The body of \<^verbatim>\<open>ValidateEncodedResponse\<close> is a sequence of five blocks, each of which
  either returns from the function or falls through to the next. Each block is a
  definition, named by what it does and given with its lines.

  Lines 201 to 225: decoding. The result is \<^verbatim>\<open>doc.Root()\<close>.
\<close>

definition decodeResponse :: "env \<Rightarrow> string \<Rightarrow> element result" where
  "decodeResponse env encodedResponse =
     (case DecodeString env encodedResponse of
        Inl err \<Rightarrow> Error err
      | Inr raw \<Rightarrow>
          (case (case ReadFromBytes env raw of
                   Inr doc \<Rightarrow> Inr doc
                 | Inl _ \<Rightarrow>
                     (case flate_ReadAll env raw of
                        Inl err \<Rightarrow> Inl err
                      | Inr buf \<Rightarrow> ReadFromBytes env buf)) of
             Inl err \<Rightarrow> Error err
           | Inr doc \<Rightarrow>
               (case Root doc of
                  None \<Rightarrow> Error (Errorf ''unable to parse response'')
                | Some e \<Rightarrow> Ok e)))"

text \<open>
  Lines 227 to 240. The argument is \<^verbatim>\<open>doc.Root()\<close>, which nothing has changed when
  line 232 reads it again. The result is the working root and
  \<^verbatim>\<open>responseSignatureValidated\<close>.
\<close>

definition validateRoot ::
  "env \<Rightarrow> SAMLServiceProvider \<Rightarrow> element \<Rightarrow> (element \<times> bool) result" where
  "validateRoot env sp root =
     (if \<not> SkipSignatureValidation sp then
        (case validateElementSignature env sp root of
           (e, Some err) \<Rightarrow>
             if err = ErrMissingSignature then Ok (root, False) else Error err
         | (None, None) \<Rightarrow> Error (Errorf ''missing transformed response'')
         | (Some e, None) \<Rightarrow> Ok (e, True))
      else Ok (root, False))"

text \<open>Lines 247 to 256. The result is \<^verbatim>\<open>el\<close> as the pass has left it.\<close>

definition enforceAssertionSignatures ::
  "env \<Rightarrow> SAMLServiceProvider \<Rightarrow> element \<Rightarrow> bool \<Rightarrow> element result" where
  "enforceAssertionSignatures env sp e responseSignatureValidated =
     (if \<not> SkipSignatureValidation sp then
        (case validateAssertionSignatures env sp e of
           (s, Error err) \<Rightarrow>
             if err = ErrMissingSignature then
               (if \<not> responseSignatureValidated then
                  Error (Errorf ''response and/or assertions must be signed'')
                else Ok (el s))
             else Error err
         | (s, Panicked p) \<Rightarrow> Panicked p
         | (s, Ok _) \<Rightarrow> Ok (el s))
      else Ok e)"

text \<open>
  Modelled from the spec: \<^verbatim>\<open>sp.Validate\<close>, which is defined in another file of the
  package. The spec has it run the semantic attribute validation and then any further
  validation, every failure being terminal.
\<close>

definition Validate :: "env \<Rightarrow> SAMLServiceProvider \<Rightarrow> Response \<Rightarrow> error option" where
  "Validate env sp response =
     (case validateResponseAttributes env sp response of
        Some err \<Rightarrow> Some err
      | None \<Rightarrow> Validate_rest env sp response)"

text \<open>Lines 258 to 269.\<close>

definition unmarshalAndValidate ::
  "env \<Rightarrow> SAMLServiceProvider \<Rightarrow> element \<Rightarrow> Response result" where
  "unmarshalAndValidate env sp e =
     (case xmlUnmarshalElement env (Unmarshal_Response env) e of
        Inl err \<Rightarrow> Error (Errorf_v ''unable to unmarshal response: %v'' (Some err))
      | Inr decodedResponse \<Rightarrow>
          (case Validate env sp decodedResponse of
             Some err \<Rightarrow> Error err
           | None \<Rightarrow> Ok decodedResponse))"

text \<open>Lines 242 to 245 and the rest of the function, from the working root on.\<close>

definition validateFromRoot ::
  "env \<Rightarrow> SAMLServiceProvider \<Rightarrow> element \<Rightarrow> bool \<Rightarrow> Response result" where
  "validateFromRoot env sp e responseSignatureValidated =
     (case decryptAssertions env sp e of
        (s, Error err) \<Rightarrow> Error err
      | (s, Panicked p) \<Rightarrow> Panicked p
      | (s, Ok _) \<Rightarrow>
          (case enforceAssertionSignatures env sp (el s) responseSignatureValidated of
             Error err \<Rightarrow> Error err
           | Panicked p \<Rightarrow> Panicked p
           | Ok e' \<Rightarrow> unmarshalAndValidate env sp e'))"

definition ValidateEncodedResponse ::
  "env \<Rightarrow> SAMLServiceProvider \<Rightarrow> string \<Rightarrow> Response result" where
  "ValidateEncodedResponse env sp encodedResponse =
     (case decodeResponse env encodedResponse of
        Error err \<Rightarrow> Error err
      | Panicked p \<Rightarrow> Panicked p
      | Ok root \<Rightarrow>
          (case validateRoot env sp root of
             Error err \<Rightarrow> Error err
           | Panicked p \<Rightarrow> Panicked p
           | Ok (e, responseSignatureValidated) \<Rightarrow>
               validateFromRoot env sp e responseSignatureValidated))"

section \<open>Notions used to state the properties\<close>

subsection \<open>Which elements a search locates\<close>

text \<open>
  The elements \<^verbatim>\<open>NSFindIterate\<close> locates in a tree are those it hands to a handler that
  only records them and never fails.
\<close>

record find_state = pass_state +
  found :: "element list"

definition collectElement :: "NSContext \<Rightarrow> element \<Rightarrow> find_state \<Rightarrow> find_state \<times> unit result" where
  "collectElement ctx x s = (s\<lparr>found := found s @ [x]\<rparr>, Ok ())"

definition located :: "env \<Rightarrow> string \<Rightarrow> string \<Rightarrow> element \<Rightarrow> element list" where
  "located env namespace tag e =
     found (fst (NSFindIterate env namespace tag collectElement
                   \<lparr>el = e, calls = [], found = []\<rparr>))"

subsection \<open>Which calls of the handler a traversal makes\<close>

text \<open>
  \<open>NSTraverse_invokes env handle ctx x s c y t\<close>: the traversal of \<open>x\<close> started in state
  \<open>s\<close> calls \<open>handle c y\<close> in state \<open>t\<close>. A call is made on the element itself, and on
  the elements below it as long as all earlier calls have returned nil.
\<close>

inductive NSTraverse_invokes ::
  "env \<Rightarrow> (NSContext \<Rightarrow> element \<Rightarrow> 's \<Rightarrow> 's \<times> unit result) \<Rightarrow>
     NSContext \<Rightarrow> element \<Rightarrow> 's \<Rightarrow> NSContext \<Rightarrow> element \<Rightarrow> 's \<Rightarrow> bool"
and NSTraverse_range_invokes ::
  "env \<Rightarrow> (NSContext \<Rightarrow> element \<Rightarrow> 's \<Rightarrow> 's \<times> unit result) \<Rightarrow>
     NSContext \<Rightarrow> element list \<Rightarrow> 's \<Rightarrow> NSContext \<Rightarrow> element \<Rightarrow> 's \<Rightarrow> bool"
for env :: env and handle :: "NSContext \<Rightarrow> element \<Rightarrow> 's \<Rightarrow> 's \<times> unit result" where
  invokes_self:
    "SubContext env ctx x = Inr ctx' \<Longrightarrow> NSTraverse_invokes env handle ctx x s ctx' x s"
| invokes_below:
    "SubContext env ctx x = Inr ctx' \<Longrightarrow> handle ctx' x s = (s', Ok ()) \<Longrightarrow>
     NSTraverse_range_invokes env handle ctx' (Child x) s' c y t \<Longrightarrow>
     NSTraverse_invokes env handle ctx x s c y t"
| invokes_first:
    "NSTraverse_invokes env handle ctx c0 s c y t \<Longrightarrow>
     NSTraverse_range_invokes env handle ctx (c0 # cs) s c y t"
| invokes_later:
    "NSTraverse env handle ctx c0 s = (s', Ok ()) \<Longrightarrow>
     NSTraverse_range_invokes env handle ctx cs s' c y t \<Longrightarrow>
     NSTraverse_range_invokes env handle ctx (c0 # cs) s c y t"

inductive NSTraverse_root_invokes ::
  "env \<Rightarrow> (NSContext \<Rightarrow> element \<Rightarrow> 'a pass_state_scheme \<Rightarrow> 'a pass_state_scheme \<times> unit result) \<Rightarrow>
     NSContext \<Rightarrow> 'a pass_state_scheme \<Rightarrow>
     NSContext \<Rightarrow> element \<Rightarrow> 'a pass_state_scheme \<Rightarrow> bool"
for env :: env
and handle :: "NSContext \<Rightarrow> element \<Rightarrow> 'a pass_state_scheme \<Rightarrow> 'a pass_state_scheme \<times> unit result"
where
  root_self:
    "SubContext env ctx (el s) = Inr ctx' \<Longrightarrow>
     NSTraverse_root_invokes env handle ctx s ctx' (el s) s"
| root_below:
    "SubContext env ctx (el s) = Inr ctx' \<Longrightarrow> handle ctx' (el s) s = (s', Ok ()) \<Longrightarrow>
     NSTraverse_range_invokes env handle ctx' (Child (el s')) s' c y t \<Longrightarrow>
     NSTraverse_root_invokes env handle ctx s c y t"



subsection \<open>The discipline of the decryption key\<close>

text \<open>
  A sequence of calls keeps the discipline of a key resolved lazily and once when:
  \<^verbatim>\<open>getDecryptCert\<close> is called at most once, directly after an encrypted assertion has
  been unmarshalled; and every decryption comes after that call and uses the
  certificate it returned. \<open>key_step\<close> reads one call; its state says whether the key
  has been resolved and whether the call before was an unmarshalling.
\<close>

fun key_step ::
  "(error + Certificate) \<Rightarrow> bool \<times> bool \<Rightarrow> call \<Rightarrow> (bool \<times> bool) option" where
  "key_step k (resolved, unmarshalled) CallGetDecryptCert =
     (if resolved \<or> \<not> unmarshalled then None else Some (True, False))"
| "key_step k (resolved, unmarshalled) (CallDecryptBytes c) =
     (if resolved \<and> k = Inr c then Some (resolved, False) else None)"
| "key_step k (resolved, unmarshalled) (CallUnmarshal a) = Some (resolved, True)"
| "key_step k (resolved, unmarshalled) (CallNSDetatch a) = Some (resolved, False)"
| "key_step k (resolved, unmarshalled) (CallReadFromBytes b) = Some (resolved, False)"
| "key_step k (resolved, unmarshalled) (CallValidate a) = Some (resolved, False)"

fun key_steps ::
  "(error + Certificate) \<Rightarrow> bool \<times> bool \<Rightarrow> call list \<Rightarrow> (bool \<times> bool) option" where
  "key_steps k st [] = Some st"
| "key_steps k st (c # cs) =
     (case key_step k st c of None \<Rightarrow> None | Some st' \<Rightarrow> key_steps k st' cs)"

definition key_lazy_once :: "(error + Certificate) \<Rightarrow> call list \<Rightarrow> bool" where
  "key_lazy_once k cs = (key_steps k (False, False) cs \<noteq> None)"

definition key_lookups :: "call list \<Rightarrow> nat" where
  "key_lookups cs = length (filter (\<lambda>c. c = CallGetDecryptCert) cs)"

section \<open>A concrete environment\<close>

text \<open>
  A small service provider and small capabilities on which the functions above can be
  run. A namespace prefix is its own namespace; an element is signed when it has the
  attribute \<open>sig\<close>, validly when the value is \<open>ok\<close>; the validated element is a copy
  without parent, with children of its own, as is a detached one; the text of an element is its serialisation;
  decryption is the identity.
\<close>

definition mk_el :: "addr \<Rightarrow> string \<Rightarrow> (string \<times> string) list \<Rightarrow> string \<Rightarrow>
    (addr \<times> string) option \<Rightarrow> element list \<Rightarrow> element" where
  "mk_el a t at tx p cs = Element a ''saml'' t at tx p cs"

definition copy_el :: "addr \<Rightarrow> element \<Rightarrow> element" where
  "copy_el off x =
     Element (addr x + off) (Space x) (Tag x) (Attr x) (Text x) None
       (map (\<lambda>c. Element (addr c + off) (Space c) (Tag c) (Attr c) (Text c)
                    (Some (addr x + off, Tag x)) (Child c))
          (Child x))"

definition demo_Validate :: "ValidationContext \<Rightarrow> element \<Rightarrow> element option \<times> error option" where
  "demo_Validate vc x =
     (case map_of (Attr x) ''sig'' of
        None \<Rightarrow> (None, Some ErrMissingSignature)
      | Some v \<Rightarrow>
          if v = ''ok'' then (Some (copy_el 200 x), None)
          else (None, Some (LibError ''signature invalid'')))"

text \<open>Documents: a response with an unsigned envelope and no assertion.\<close>

definition doc_parent :: "(addr \<times> string) option" where
  "doc_parent = Some (0, [])"

definition resp_plain :: element where
  "resp_plain = mk_el 1 ''Response'' [] ''https://sp/acs'' doc_parent []"

text \<open>A response with a signed envelope and one unsigned assertion.\<close>

definition resp_signed :: element where
  "resp_signed = mk_el 1 ''Response'' [(''sig'', ''ok'')] ''https://sp/acs'' doc_parent
     [mk_el 2 ''Assertion'' [] ''a'' (Some (1, ''Response'')) []]"

text \<open>An unsigned envelope with one signed and one unsigned assertion.\<close>

definition resp_mixed :: element where
  "resp_mixed = mk_el 1 ''Response'' [] ''https://sp/acs'' doc_parent
     [mk_el 2 ''Assertion'' [(''sig'', ''ok'')] ''a'' (Some (1, ''Response'')) [],
      mk_el 3 ''Assertion'' [] ''b'' (Some (1, ''Response'')) []]"

text \<open>An unsigned envelope with two encrypted assertions and one signed assertion.\<close>

definition enc_A1 :: element where
  "enc_A1 = mk_el 2 ''EncryptedAssertion'' [] ''<A1>'' (Some (1, ''Response'')) []"

definition signed_c :: element where
  "signed_c = mk_el 3 ''Assertion'' [(''sig'', ''ok'')] ''c'' (Some (1, ''Response'')) []"

definition enc_A2 :: element where
  "enc_A2 = mk_el 4 ''EncryptedAssertion'' [] ''<A2>'' (Some (1, ''Response'')) []"

definition resp_enc :: element where
  "resp_enc = mk_el 1 ''Response'' [] ''https://sp/acs'' doc_parent [enc_A1, signed_c, enc_A2]"

text \<open>A document whose root is a validly signed assertion.\<close>

definition assertion_root :: element where
  "assertion_root = mk_el 1 ''Assertion'' [(''sig'', ''ok'')] ''https://sp/acs'' doc_parent []"

definition plain_A1 :: element where
  "plain_A1 = mk_el 11 ''Assertion'' [(''sig'', ''ok'')] ''a1'' (Some (10, [])) []"

definition plain_A2 :: element where
  "plain_A2 = mk_el 21 ''Assertion'' [(''sig'', ''ok'')] ''a2'' (Some (20, [])) []"

definition demo_ReadFromBytes :: "bytes \<Rightarrow> error + Document" where
  "demo_ReadFromBytes b =
     (if b = ''<plain>'' then Inr \<lparr>Root = Some resp_plain\<rparr>
      else if b = ''<signed>'' then Inr \<lparr>Root = Some resp_signed\<rparr>
      else if b = ''<mixed>'' then Inr \<lparr>Root = Some resp_mixed\<rparr>
      else if b = ''<encrypted>'' then Inr \<lparr>Root = Some resp_enc\<rparr>
      else if b = ''<assertion>'' then Inr \<lparr>Root = Some assertion_root\<rparr>
      else if b = ''<A1>'' then Inr \<lparr>Root = Some plain_A1\<rparr>
      else if b = ''<A2>'' then Inr \<lparr>Root = Some plain_A2\<rparr>
      else if b = [] then Inr \<lparr>Root = None\<rparr>
      else Inl (LibError ''XML syntax error''))"

definition demo_env :: env where
  "demo_env = \<lparr>
     DecodeString = (\<lambda>s. if CHR ''!'' \<in> set s then Inl (LibError ''illegal base64 data'')
                         else Inr s),
     ReadFromBytes = demo_ReadFromBytes,
     flate_ReadAll = (\<lambda>b. case b of
                        [] \<Rightarrow> Inl (LibError ''unexpected EOF'')
                      | c # r \<Rightarrow> if c = CHR ''z'' then Inr r
                                   else Inl (LibError ''flate: corrupt input'')),
     WriteToBytes = (\<lambda>e. Inr (Text e)),
     Unmarshal_Response = (\<lambda>b. Inr \<lparr>Destination = b, Version = ''2.0''\<rparr>),
     Unmarshal_EncryptedAssertion = (\<lambda>b. Inr b),
     DefaultNSContext = [],
     SubContext = (\<lambda>ctx x. Inr ctx),
     LookupPrefix = (\<lambda>ctx p. Inr p),
     NSDetatch = (\<lambda>ctx x. Inr (copy_el 100 x)),
     dsig_Validate = demo_Validate,
     DecryptBytes = (\<lambda>ea cert. Inr ea),
     Validate_rest = (\<lambda>sp r. None),
     SAMLAssertionNamespace = ''saml'',
     AssertionTag = ''Assertion'',
     EncryptedAssertionTag = ''EncryptedAssertion'',
     DestinationAttr = ''Destination'',
     ReasonUnsupported = 0 \<rparr>"

definition demo_cert :: Certificate where
  "demo_cert = \<lparr>Certificate = [''cert''], PrivateKey = Some ''key''\<rparr>"

definition demo_sp :: SAMLServiceProvider where
  "demo_sp = \<lparr>
     IDPCertificateStore = [''idp''],
     Clock = Some 0,
     AssertionConsumerServiceURL = ''https://sp/acs'',
     SkipSignatureValidation = False,
     SPKeyStore = None \<rparr>"

definition demo_sp_key :: SAMLServiceProvider where
  "demo_sp_key = demo_sp\<lparr>SPKeyStore := Some (TLSCertKeyStore demo_cert)\<rparr>"

text \<open>An envelope whose signature does not verify.\<close>

definition resp_forged :: element where
  "resp_forged = mk_el 1 ''Response'' [(''sig'', ''forged'')] ''https://sp/acs'' doc_parent []"

text \<open>A validation capability that returns neither an element nor an error.\<close>

definition demo_env_nil :: env where
  "demo_env_nil = demo_env\<lparr>dsig_Validate := (\<lambda>vc x. (None, None))\<rparr>"


definition demo_response :: Response where
  "demo_response = \<lparr>Destination = ''https://sp/acs'', Version = ''2.0''\<rparr>"






text \<open>The state of the signature pass over \<open>resp_mixed\<close> when the search returns.\<close>

definition demo_mixed_state :: assert_state where
  "demo_mixed_state = fst (NSFindIterate demo_env (SAMLAssertionNamespace demo_env)
      (AssertionTag demo_env) (validateAssertion demo_env demo_sp)
      (validateAssertionSignatures_init resp_mixed))"

text \<open>The state in which the decryption pass over \<open>resp_enc\<close> ends, with a key store.\<close>

definition demo_decrypted :: decrypt_state where
  "demo_decrypted = fst (decryptAssertions demo_env demo_sp_key resp_enc)"


section \<open>Invariant of the decryption pass\<close>

text \<open>
  What holds between two calls of the closure \<^verbatim>\<open>decryptAssertion\<close>: the calls made so
  far keep the discipline of the key, the key counts as resolved exactly when
  \<^verbatim>\<open>decryptCert\<close> is not nil, and \<^verbatim>\<open>decryptCert\<close> holds what \<^verbatim>\<open>getDecryptCert\<close>
  returns.
\<close>

definition key_inv :: "SAMLServiceProvider \<Rightarrow> decrypt_state \<Rightarrow> bool" where
  "key_inv sp s =
     ((\<exists>u. key_steps (getDecryptCert sp) (False, False) (calls s) =
             Some (decryptCert s \<noteq> None, u))
      \<and> (\<forall>c. decryptCert s = Some c \<longrightarrow> getDecryptCert sp = Inr c))"

section \<open>Properties\<close>

subsection \<open>Running the concrete environment\<close>

lemma demo_DecodeString: "CHR ''!'' \<notin> set b \<Longrightarrow> DecodeString demo_env b = Inr b"
  by (simp add: demo_env_def)

lemma demo_env_simps:
  "DecodeString demo_env ''!'' = Inl (LibError ''illegal base64 data'')"
  "ReadFromBytes demo_env = demo_ReadFromBytes"
  "flate_ReadAll demo_env ''q'' = Inl (LibError ''flate: corrupt input'')"
  "flate_ReadAll demo_env (CHR ''z'' # b) = Inr b"
  by (simp_all add: demo_env_def)

lemma demo_ReadFromBytes_simps:
  "demo_ReadFromBytes ''<plain>'' = Inr \<lparr>Root = Some resp_plain\<rparr>"
  "demo_ReadFromBytes ''<signed>'' = Inr \<lparr>Root = Some resp_signed\<rparr>"
  "demo_ReadFromBytes ''<mixed>'' = Inr \<lparr>Root = Some resp_mixed\<rparr>"
  "demo_ReadFromBytes ''<encrypted>'' = Inr \<lparr>Root = Some resp_enc\<rparr>"
  "demo_ReadFromBytes ''<assertion>'' = Inr \<lparr>Root = Some assertion_root\<rparr>"
  "demo_ReadFromBytes [] = Inr \<lparr>Root = None\<rparr>"
  "demo_ReadFromBytes ''q'' = Inl (LibError ''XML syntax error'')"
  "demo_ReadFromBytes ''zq'' = Inl (LibError ''XML syntax error'')"
  "demo_ReadFromBytes ''z<plain>'' = Inl (LibError ''XML syntax error'')"
  by (simp_all add: demo_ReadFromBytes_def)

lemma demo_sp_checks: "\<not> SkipSignatureValidation demo_sp"
  by (simp add: demo_sp_def)

lemma demo_decode:
  "decodeResponse demo_env ''<plain>'' = Ok resp_plain"
  "decodeResponse demo_env ''<signed>'' = Ok resp_signed"
  "decodeResponse demo_env ''<mixed>'' = Ok resp_mixed"
  by (simp_all add: decodeResponse_def demo_DecodeString demo_env_simps
        demo_ReadFromBytes_simps)

lemma demo_validateElementSignature:
  "validateElementSignature demo_env demo_sp resp_plain = (None, Some ErrMissingSignature)"
  "validateElementSignature demo_env demo_sp resp_forged =
     (None, Some (LibError ''signature invalid''))"
  "validateElementSignature demo_env_nil demo_sp resp_plain = (None, None)"
  "validateElementSignature demo_env demo_sp resp_signed = (Some (copy_el 200 resp_signed), None)"
  by code_simp+

lemma demo_validateRoot:
  "validateRoot demo_env demo_sp resp_plain = Ok (resp_plain, False)"
  "validateRoot demo_env demo_sp resp_signed = Ok (copy_el 200 resp_signed, True)"
  "validateRoot demo_env demo_sp resp_mixed = Ok (resp_mixed, False)"
  by code_simp+

lemma demo_decrypt_none:
  "decryptAssertions demo_env demo_sp resp_plain = (decryptAssertions_init resp_plain, Ok ())"
  "decryptAssertions demo_env demo_sp (copy_el 200 resp_signed) =
     (decryptAssertions_init (copy_el 200 resp_signed), Ok ())"
  "decryptAssertions demo_env demo_sp resp_mixed = (decryptAssertions_init resp_mixed, Ok ())"
  by code_simp+

lemma demo_missing:
  "validateAssertionSignatures demo_env demo_sp resp_plain =
     (validateAssertionSignatures_init resp_plain, Error ErrMissingSignature)"
  "snd (validateAssertionSignatures demo_env demo_sp (copy_el 200 resp_signed)) =
     Error ErrMissingSignature"
  "el (fst (validateAssertionSignatures demo_env demo_sp (copy_el 200 resp_signed))) =
     copy_el 200 resp_signed"
  by code_simp+

lemma demo_unmarshal:
  "unmarshalAndValidate demo_env demo_sp (copy_el 200 resp_signed) = Ok demo_response"
  by code_simp

lemma demo_mixed:
  "snd (NSFindIterate demo_env (SAMLAssertionNamespace demo_env)
      (AssertionTag demo_env) (validateAssertion demo_env demo_sp)
      (validateAssertionSignatures_init resp_mixed)) = Ok ()"
  "signedAssertions demo_mixed_state = 1"
  "unsignedAssertions demo_mixed_state = 1"
  by code_simp+








subsection \<open>Elements and their children\<close>

lemma set_Child_simps [simp]:
  "addr (set_Child e cs) = addr e" "Tag (set_Child e cs) = Tag e"
  "Child (set_Child e cs) = cs" "Parent (set_Child e cs) = Parent e"
  by (cases e; simp)+

lemma set_Parent_simps [simp]:
  "addr (set_Parent e p) = addr e" "Tag (set_Parent e p) = Tag e"
  "Child (set_Parent e p) = Child e" "Parent (set_Parent e p) = p"
  by (cases e; simp)+






subsection \<open>The traversal\<close>


text \<open>
  A property \<open>I\<close> that every successful call of the handler keeps, and a weaker \<open>J\<close> that
  every call establishes from \<open>I\<close>: the traversal establishes \<open>J\<close>, and keeps \<open>I\<close> when it
  returns nil.
\<close>

lemma NSTraverse_invariant_aux:
  "(\<forall>ctx x s s' r. I s \<longrightarrow> handle ctx x s = (s', r) \<longrightarrow> J s' \<and> (r = Ok () \<longrightarrow> I s')) \<Longrightarrow>
   (\<forall>s. I s \<longrightarrow> J s) \<Longrightarrow>
   I s \<Longrightarrow> NSTraverse env handle ctx x s = (s', r) \<Longrightarrow> J s' \<and> (r = Ok () \<longrightarrow> I s')"
  "(\<forall>ctx x s s' r. I s \<longrightarrow> handle ctx x s = (s', r) \<longrightarrow> J s' \<and> (r = Ok () \<longrightarrow> I s')) \<Longrightarrow>
   (\<forall>s. I s \<longrightarrow> J s) \<Longrightarrow>
   I s \<Longrightarrow> NSTraverse_range env handle ctx cs s = (s', r) \<Longrightarrow> J s' \<and> (r = Ok () \<longrightarrow> I s')"
proof (induction env handle ctx x s and env handle ctx cs s arbitrary: s' r and s' r
    rule: NSTraverse_NSTraverse_range.induct)
  case (1 env handle ctx a sp t at tx p cs s)
  note step = "1.prems"(1) and IJ = "1.prems"(2)
  show ?case
  proof (cases "SubContext env ctx (Element a sp t at tx p cs)")
    case (Inl err)
    with "1.prems" show ?thesis by auto
  next
    case (Inr ctx')
    obtain s1 r1 where h: "handle ctx' (Element a sp t at tx p cs) s = (s1, r1)"
      by (cases "handle ctx' (Element a sp t at tx p cs) s")
    from step "1.prems"(3) h have j1: "J s1" and i1: "r1 = Ok () \<longrightarrow> I s1" by blast+
    show ?thesis
    proof (cases r1)
      case (Ok u)
      with i1 have "I s1" by simp
      moreover from "1.prems"(4) Inr h Ok
      have "NSTraverse_range env handle ctx' cs s1 = (s', r)" by simp
      ultimately show ?thesis
        using "1.IH" [OF Inr h [symmetric] _ step IJ] Ok by auto
    next
      case (Error e)
      with "1.prems"(4) Inr h j1 show ?thesis by auto
    next
      case (Panicked p)
      with "1.prems"(4) Inr h j1 show ?thesis by auto
    qed
  qed
next
  case (2 env handle ctx s)
  then show ?case by auto
next
  case (3 env handle ctx c cs s)
  note step = "3.prems"(1) and IJ = "3.prems"(2)
  obtain s1 r1 where h: "NSTraverse env handle ctx c s = (s1, r1)"
    by (cases "NSTraverse env handle ctx c s")
  from "3.IH"(1) [OF step IJ "3.prems"(3) h] have j1: "J s1" and i1: "r1 = Ok () \<longrightarrow> I s1"
    by auto
  show ?case
  proof (cases r1)
    case (Ok u)
    with i1 have "I s1" by simp
    moreover from "3.prems"(4) h Ok
    have "NSTraverse_range env handle ctx cs s1 = (s', r)" by simp
    ultimately show ?thesis
      using "3.IH"(2) [OF h [symmetric] _ step IJ] Ok by auto
  next
    case (Error e)
    with "3.prems"(4) h j1 show ?thesis by auto
  next
    case (Panicked p)
    with "3.prems"(4) h j1 show ?thesis by auto
  qed
qed

lemma NSFindIterate_invariant:
  assumes step: "\<And>ctx x s s' r. I s \<Longrightarrow> handleFn ctx x s = (s', r) \<Longrightarrow> J s' \<and> (r = Ok () \<longrightarrow> I s')"
      and IJ: "\<And>s. I s \<Longrightarrow> J s"
      and init: "I s"
      and run: "NSFindIterate env namespace tag handleFn s = (s', r)"
  shows "J s'"
proof -
  let ?h = "NSFind_handle env namespace tag handleFn"
  have hstep: "\<forall>ctx x s s' r. I s \<longrightarrow> ?h ctx x s = (s', r) \<longrightarrow> J s' \<and> (r = Ok () \<longrightarrow> I s')"
    using step IJ
    by (auto simp: NSFind_handle_def split: sum.splits if_splits)
  have ij: "\<forall>s. I s \<longrightarrow> J s" using IJ by simp
  obtain s1 r1 where t: "NSTraverse_root env ?h (DefaultNSContext env) s = (s1, r1)"
    by (cases "NSTraverse_root env ?h (DefaultNSContext env) s")
  have "J s1"
  proof (cases "SubContext env (DefaultNSContext env) (el s)")
    case (Inl err)
    with t init IJ show ?thesis by (auto simp: NSTraverse_root_def)
  next
    case (Inr ctx')
    obtain s2 r2 where h: "?h ctx' (el s) s = (s2, r2)"
      by (cases "?h ctx' (el s) s")
    from hstep init h have j2: "J s2" and i2: "r2 = Ok () \<longrightarrow> I s2" by blast+
    show ?thesis
    proof (cases r2)
      case (Ok u)
      with i2 have "I s2" by simp
      moreover from t Inr h Ok
      have "NSTraverse_range env ?h ctx' (Child (el s2)) s2 = (s1, r1)"
        by (simp add: NSTraverse_root_def)
      ultimately show ?thesis
        using NSTraverse_invariant_aux(2) [OF hstep ij] by blast
    next
      case (Error e)
      with t Inr h j2 show ?thesis by (auto simp: NSTraverse_root_def)
    next
      case (Panicked p)
      with t Inr h j2 show ?thesis by (auto simp: NSTraverse_root_def)
    qed
  qed
  moreover from run t have "s' = s1"
    by (auto simp: NSFindIterate_def split: result.splits if_splits)
  ultimately show ?thesis by simp
qed





text \<open>A search that locates nothing calls no handler: it leaves any state as it is.\<close>

lemma collect_found_length:
  "hc = NSFind_handle env namespace tag collectElement \<Longrightarrow>
   NSTraverse env hc ctx x t = (t', r) \<Longrightarrow> length (found t) \<le> length (found t')"
  "hc = NSFind_handle env namespace tag collectElement \<Longrightarrow>
   NSTraverse_range env hc ctx cs t = (t', r) \<Longrightarrow> length (found t) \<le> length (found t')"
proof -
  let ?I = "\<lambda>u. length (found t) \<le> length (found u)"
  assume hc: "hc = NSFind_handle env namespace tag collectElement"
  have step: "\<forall>ctx x s s' r. ?I s \<longrightarrow> hc ctx x s = (s', r) \<longrightarrow> ?I s' \<and> (r = Ok () \<longrightarrow> ?I s')"
    unfolding hc
    by (auto simp: NSFind_handle_def collectElement_def split: sum.splits if_splits)
  have ij: "\<forall>s. ?I s \<longrightarrow> ?I s" by simp
  show "NSTraverse env hc ctx x t = (t', r) \<Longrightarrow> length (found t) \<le> length (found t')"
    using NSTraverse_invariant_aux(1) [OF step ij, of t env ctx x t' r] by simp
  show "NSTraverse_range env hc ctx cs t = (t', r) \<Longrightarrow> length (found t) \<le> length (found t')"
    using NSTraverse_invariant_aux(2) [OF step ij, of t env ctx cs t' r] by simp
qed

lemma collect_handle_cases:
  assumes "NSFind_handle env namespace tag collectElement ctx x t = (t1, r1)"
  shows "(length (found t1) = Suc (length (found t)) \<and> r1 = Ok ())
       \<or> (t1 = t \<and> NSFind_handle env namespace tag h ctx x s = (s, r1))"
  using assms
  by (auto simp: NSFind_handle_def collectElement_def split: sum.splits if_splits)

lemma none_located_aux:
  "hc = NSFind_handle env namespace tag collectElement \<Longrightarrow>
   NSTraverse env hc ctx x t = (t', r) \<Longrightarrow> length (found t') = length (found t) \<Longrightarrow>
   NSTraverse env (NSFind_handle env namespace tag h) ctx x s = (s, r)"
  "hc = NSFind_handle env namespace tag collectElement \<Longrightarrow>
   NSTraverse_range env hc ctx cs t = (t', r) \<Longrightarrow> length (found t') = length (found t) \<Longrightarrow>
   NSTraverse_range env (NSFind_handle env namespace tag h) ctx cs s = (s, r)"
proof (induction env hc ctx x t and env hc ctx cs t arbitrary: t' r and t' r
    rule: NSTraverse_NSTraverse_range.induct)
  case (1 env hc ctx a sp tg at tx p cs t)
  note hc = "1.prems"(1)
  let ?x = "Element a sp tg at tx p cs"
  show ?case
  proof (cases "SubContext env ctx ?x")
    case (Inl err)
    with "1.prems" show ?thesis by auto
  next
    case (Inr ctx')
    obtain t1 r1 where h: "hc ctx' ?x t = (t1, r1)" by (cases "hc ctx' ?x t")
    from collect_handle_cases [OF h [unfolded hc], of h s]
    show ?thesis
    proof
      assume m: "length (found t1) = Suc (length (found t)) \<and> r1 = Ok ()"
      with "1.prems"(2) Inr h have "NSTraverse_range env hc ctx' cs t1 = (t', r)" by simp
      from collect_found_length(2) [OF hc this] m "1.prems"(3) show ?thesis by simp
    next
      assume n: "t1 = t \<and> NSFind_handle env namespace tag h ctx' ?x s = (s, r1)"
      show ?thesis
      proof (cases r1)
        case (Ok u)
        with "1.prems"(2) Inr h n have rest: "NSTraverse_range env hc ctx' cs t = (t', r)"
          by simp
        from "1.IH" [OF Inr h [symmetric] _ hc, of "()" t' r] n Ok rest "1.prems"(3)
        have "NSTraverse_range env (NSFind_handle env namespace tag h) ctx' cs s = (s, r)"
          by simp
        with Inr n Ok show ?thesis by simp
      next
        case (Error e)
        with "1.prems"(2) Inr h n show ?thesis by auto
      next
        case (Panicked q)
        with "1.prems"(2) Inr h n show ?thesis by auto
      qed
    qed
  qed
next
  case (2 env hc ctx t)
  then show ?case by simp
next
  case (3 env hc ctx c cs t)
  note hc = "3.prems"(1)
  obtain t1 r1 where h: "NSTraverse env hc ctx c t = (t1, r1)"
    by (cases "NSTraverse env hc ctx c t")
  have le1: "length (found t) \<le> length (found t1)"
    by (rule collect_found_length(1) [OF hc h])
  show ?case
  proof (cases r1)
    case (Ok u)
    with "3.prems"(2) h have rest: "NSTraverse_range env hc ctx cs t1 = (t', r)" by simp
    from collect_found_length(2) [OF hc rest] le1 "3.prems"(3)
    have eq: "length (found t1) = length (found t)" "length (found t') = length (found t1)"
      by simp_all
    from "3.IH"(1) [OF hc h eq(1)]
    have a: "NSTraverse env (NSFind_handle env namespace tag h) ctx c s = (s, r1)" .
    from "3.IH"(2) [OF h [symmetric] _ hc rest eq(2)] Ok
    have b: "NSTraverse_range env (NSFind_handle env namespace tag h) ctx cs s = (s, r)"
      by simp
    from a b Ok show ?thesis by simp
  next
    case (Error e)
    with "3.prems"(2) h have "t' = t1" "r = r1" by auto
    with "3.IH"(1) [OF hc h] "3.prems"(3) Error show ?thesis by simp
  next
    case (Panicked q)
    with "3.prems"(2) h have "t' = t1" "r = r1" by auto
    with "3.IH"(1) [OF hc h] "3.prems"(3) Panicked show ?thesis by simp
  qed
qed

lemma none_located_root:
  assumes run: "NSTraverse_root env (NSFind_handle env namespace tag collectElement) ctx t = (t', r)"
      and none: "length (found t') = length (found t)"
      and same: "el s = el t"
  shows "NSTraverse_root env (NSFind_handle env namespace tag h) ctx s = (s, r)"
proof (cases "SubContext env ctx (el t)")
  case (Inl err)
  with run same show ?thesis by (auto simp: NSTraverse_root_def)
next
  case (Inr ctx')
  let ?hc = "NSFind_handle env namespace tag collectElement"
  obtain t1 r1 where h: "?hc ctx' (el t) t = (t1, r1)" by (cases "?hc ctx' (el t) t")
  from collect_handle_cases [OF h, of h s]
  show ?thesis
  proof
    assume m: "length (found t1) = Suc (length (found t)) \<and> r1 = Ok ()"
    with run Inr h have "NSTraverse_range env ?hc ctx' (Child (el t1)) t1 = (t', r)"
      by (simp add: NSTraverse_root_def)
    from collect_found_length(2) [OF refl this] m none show ?thesis by simp
  next
    assume n: "t1 = t \<and> NSFind_handle env namespace tag h ctx' (el t) s = (s, r1)"
    show ?thesis
    proof (cases r1)
      case (Ok u)
      with run Inr h n have "NSTraverse_range env ?hc ctx' (Child (el t)) t = (t', r)"
        by (simp add: NSTraverse_root_def)
      from none_located_aux(2) [OF refl this none, of h s] Inr n Ok same
      show ?thesis by (simp add: NSTraverse_root_def)
    next
      case (Error e)
      with run Inr h n same show ?thesis by (auto simp: NSTraverse_root_def)
    next
      case (Panicked q)
      with run Inr h n same show ?thesis by (auto simp: NSTraverse_root_def)
    qed
  qed
qed

lemma none_located_NSFindIterate:
  assumes none: "length (found (fst (NSFindIterate env namespace tag collectElement t))) =
                   length (found t)"
      and same: "el s = el t"
  shows "NSFindIterate env namespace tag h s =
           (s, snd (NSFindIterate env namespace tag collectElement t))"
proof -
  let ?hc = "NSFind_handle env namespace tag collectElement"
  obtain t' r where run: "NSTraverse_root env ?hc (DefaultNSContext env) t = (t', r)"
    by (cases "NSTraverse_root env ?hc (DefaultNSContext env) t")
  then have "fst (NSFindIterate env namespace tag collectElement t) = t'"
    by (auto simp: NSFindIterate_def split: result.splits)
  with none have "length (found t') = length (found t)" by simp
  from none_located_root [OF run this same, of h] run
  show ?thesis by (auto simp: NSFindIterate_def split: result.splits)
qed

subsection \<open>What a returned response satisfies\<close>




subsection \<open>The orchestrator\<close>

text \<open>
  C6. The decoder base64-decodes the string and fails with the decoding error when that
  fails. It parses the bytes; when the parse fails it inflates the bytes and parses the
  result, and the error of the inflation or of the second parse is returned. When a
  parse succeeds and the document has no root, the error is "unable to parse response".
  Each of these errors is the result of the whole call.
\<close>

theorem C6_decode:
  "(DecodeString env enc = Inl err \<longrightarrow>
      decodeResponse env enc = Error err \<and> ValidateEncodedResponse env sp enc = Error err)
   \<and> (DecodeString env enc = Inr raw \<and> ReadFromBytes env raw = Inr doc \<longrightarrow>
        decodeResponse env enc =
          (case Root doc of None \<Rightarrow> Error (Errorf ''unable to parse response'') | Some e \<Rightarrow> Ok e))
   \<and> (DecodeString env enc = Inr raw \<and> ReadFromBytes env raw = Inl err1
        \<and> flate_ReadAll env raw = Inl err \<longrightarrow>
        decodeResponse env enc = Error err \<and> ValidateEncodedResponse env sp enc = Error err)
   \<and> (DecodeString env enc = Inr raw \<and> ReadFromBytes env raw = Inl err1
        \<and> flate_ReadAll env raw = Inr buf \<and> ReadFromBytes env buf = Inl err \<longrightarrow>
        decodeResponse env enc = Error err \<and> ValidateEncodedResponse env sp enc = Error err)
   \<and> (DecodeString env enc = Inr raw \<and> ReadFromBytes env raw = Inl err1
        \<and> flate_ReadAll env raw = Inr buf \<and> ReadFromBytes env buf = Inr doc \<longrightarrow>
        decodeResponse env enc =
          (case Root doc of None \<Rightarrow> Error (Errorf ''unable to parse response'') | Some e \<Rightarrow> Ok e))
   \<and> (decodeResponse env enc = Error (Errorf ''unable to parse response'') \<longrightarrow>
        ValidateEncodedResponse env sp enc = Error (Errorf ''unable to parse response''))"
  by (simp add: decodeResponse_def ValidateEncodedResponse_def)

theorem C6_decode_witness:
  "ValidateEncodedResponse demo_env demo_sp ''!'' = Error (LibError ''illegal base64 data'')
   \<and> decodeResponse demo_env ''<plain>'' = Ok resp_plain
   \<and> ValidateEncodedResponse demo_env demo_sp ''q'' = Error (LibError ''flate: corrupt input'')
   \<and> ValidateEncodedResponse demo_env demo_sp ''zq'' = Error (LibError ''XML syntax error'')
   \<and> decodeResponse demo_env ''z<plain>'' = Ok resp_plain
   \<and> ValidateEncodedResponse demo_env demo_sp [] = Error (Errorf ''unable to parse response'')"
  using C6_decode [of demo_env "''!''" "LibError ''illegal base64 data''" demo_sp]
    C6_decode [of demo_env "''<plain>''" _ _ "''<plain>''" "\<lparr>Root = Some resp_plain\<rparr>"]
    C6_decode [of demo_env "''q''" "LibError ''flate: corrupt input''" demo_sp "''q''" _
                 "LibError ''XML syntax error''"]
    C6_decode [of demo_env "''zq''" "LibError ''XML syntax error''" demo_sp "''zq''" _
                 "LibError ''XML syntax error''" "''q''"]
    C6_decode [of demo_env "''z<plain>''" _ _ "''z<plain>''" "\<lparr>Root = Some resp_plain\<rparr>"
                 "LibError ''XML syntax error''" "''<plain>''"]
    C6_decode [of demo_env "[]" _ demo_sp "[]" "\<lparr>Root = None\<rparr>"]
  by (simp add: demo_DecodeString demo_env_simps demo_ReadFromBytes_simps)

text \<open>
  C4. With signature checking on, the root of the decoded document is validated. On the
  missing-signature error the working root is the document root as it was and the
  envelope counts as not validated. Any other error is returned. No element and no
  error is the error "missing transformed response". Otherwise the validated element
  is the working root and the envelope counts as validated. The call goes on from the
  working root and the flag, or returns the error.
\<close>

theorem C4_root_validation:
  assumes "\<not> SkipSignatureValidation sp"
  shows
  "(validateElementSignature env sp root = (x, Some ErrMissingSignature) \<longrightarrow>
      validateRoot env sp root = Ok (root, False))
   \<and> (validateElementSignature env sp root = (x, Some err) \<and> err \<noteq> ErrMissingSignature \<longrightarrow>
      validateRoot env sp root = Error err)
   \<and> (validateElementSignature env sp root = (None, None) \<longrightarrow>
      validateRoot env sp root = Error (Errorf ''missing transformed response''))
   \<and> (validateElementSignature env sp root = (Some v, None) \<longrightarrow>
      validateRoot env sp root = Ok (v, True))
   \<and> (decodeResponse env enc = Ok root \<longrightarrow>
      ValidateEncodedResponse env sp enc =
        (case validateRoot env sp root of
           Ok (e, validated) \<Rightarrow> validateFromRoot env sp e validated
         | Error err \<Rightarrow> Error err
         | Panicked p \<Rightarrow> Panicked p))"
  using assms
  by (auto simp: validateRoot_def ValidateEncodedResponse_def
        split: result.splits option.splits)

theorem C4_root_validation_witness:
  "validateRoot demo_env demo_sp resp_plain = Ok (resp_plain, False)
   \<and> ValidateEncodedResponse demo_env demo_sp ''<plain>'' =
       validateFromRoot demo_env demo_sp resp_plain False
   \<and> validateRoot demo_env demo_sp resp_forged = Error (LibError ''signature invalid'')
   \<and> validateRoot demo_env_nil demo_sp resp_plain =
       Error (Errorf ''missing transformed response'')
   \<and> validateRoot demo_env demo_sp resp_signed = Ok (copy_el 200 resp_signed, True)
   \<and> ValidateEncodedResponse demo_env demo_sp ''<signed>'' =
       validateFromRoot demo_env demo_sp (copy_el 200 resp_signed) True"
  using C4_root_validation [OF demo_sp_checks, of demo_env resp_plain None
          "LibError ''signature invalid''" _ "''<plain>''"]
    C4_root_validation [OF demo_sp_checks, of demo_env resp_forged None
          "LibError ''signature invalid''"]
    C4_root_validation [OF demo_sp_checks, of demo_env_nil resp_plain]
    C4_root_validation [OF demo_sp_checks, of demo_env resp_signed _ _
          "copy_el 200 resp_signed" "''<signed>''"]
  by (simp add: demo_validateElementSignature demo_decode)

text \<open>
  C1. With signature checking on, when the pass over the assertions returns the
  missing-signature error: if the envelope was not validated the call fails with
  "response and/or assertions must be signed"; if it was validated the error is
  dropped and the call goes on to unmarshal the response element the pass has left.
\<close>

theorem C1_missing_signature:
  assumes "\<not> SkipSignatureValidation sp"
      and "validateAssertionSignatures env sp e = (s, Error ErrMissingSignature)"
  shows
  "enforceAssertionSignatures env sp e False =
      Error (Errorf ''response and/or assertions must be signed'')
   \<and> enforceAssertionSignatures env sp e True = Ok (el s)
   \<and> (decodeResponse env enc = Ok root \<and> validateRoot env sp root = Ok (e0, validated)
        \<and> decryptAssertions env sp e0 = (sd, Ok ()) \<and> el sd = e \<longrightarrow>
        ValidateEncodedResponse env sp enc =
          (if validated then unmarshalAndValidate env sp (el s)
           else Error (Errorf ''response and/or assertions must be signed'')))"
  using assms
  by (auto simp: enforceAssertionSignatures_def ValidateEncodedResponse_def validateFromRoot_def)

theorem C1_missing_signature_witness:
  "ValidateEncodedResponse demo_env demo_sp ''<plain>'' =
     Error (Errorf ''response and/or assertions must be signed'')
   \<and> ValidateEncodedResponse demo_env demo_sp ''<signed>'' = Ok demo_response"
proof -
  have a: "validateAssertionSignatures demo_env demo_sp (copy_el 200 resp_signed) =
      (fst (validateAssertionSignatures demo_env demo_sp (copy_el 200 resp_signed)),
       Error ErrMissingSignature)"
    using demo_missing(2) by (metis prod.collapse)
  show ?thesis
    using C1_missing_signature [OF demo_sp_checks demo_missing(1), of "''<plain>''" resp_plain
        resp_plain False "decryptAssertions_init resp_plain"]
      C1_missing_signature [OF demo_sp_checks a, of "''<signed>''" resp_signed
        "copy_el 200 resp_signed" True "decryptAssertions_init (copy_el 200 resp_signed)"]
    by (simp add: demo_decode demo_validateRoot demo_decrypt_none demo_missing demo_unmarshal
          decryptAssertions_init_def)
qed

text \<open>
  C2. When the search over the assertions has returned nil and both counters are above
  zero, the pass fails with "invalid to have both signed and unsigned assertions".
  With signature checking on that error ends the call, whether or not the envelope was
  validated.
\<close>

theorem C2_mixed:
  assumes "NSFindIterate env (SAMLAssertionNamespace env) (AssertionTag env)
             (validateAssertion env sp) (validateAssertionSignatures_init e) = (s, Ok ())"
      and "0 < signedAssertions s" and "0 < unsignedAssertions s"
  shows
  "validateAssertionSignatures env sp e =
      (s, Error (Errorf ''invalid to have both signed and unsigned assertions''))
   \<and> (\<not> SkipSignatureValidation sp \<longrightarrow>
        enforceAssertionSignatures env sp e validated =
          Error (Errorf ''invalid to have both signed and unsigned assertions'')
        \<and> (decodeResponse env enc = Ok root \<and> validateRoot env sp root = Ok (e0, validated)
             \<and> decryptAssertions env sp e0 = (sd, Ok ()) \<and> el sd = e \<longrightarrow>
             ValidateEncodedResponse env sp enc =
               Error (Errorf ''invalid to have both signed and unsigned assertions'')))"
  using assms
  by (auto simp: validateAssertionSignatures_def enforceAssertionSignatures_def
        ValidateEncodedResponse_def validateFromRoot_def)

theorem C2_mixed_witness:
  "snd (validateAssertionSignatures demo_env demo_sp resp_mixed) =
     Error (Errorf ''invalid to have both signed and unsigned assertions'')
   \<and> enforceAssertionSignatures demo_env demo_sp resp_mixed True =
     Error (Errorf ''invalid to have both signed and unsigned assertions'')
   \<and> ValidateEncodedResponse demo_env demo_sp ''<mixed>'' =
     Error (Errorf ''invalid to have both signed and unsigned assertions'')"
proof -
  have a: "NSFindIterate demo_env (SAMLAssertionNamespace demo_env)
      (AssertionTag demo_env) (validateAssertion demo_env demo_sp)
      (validateAssertionSignatures_init resp_mixed) = (demo_mixed_state, Ok ())"
    using demo_mixed(1) unfolding demo_mixed_state_def by (metis prod.collapse)
  have b: "0 < signedAssertions demo_mixed_state" "0 < unsignedAssertions demo_mixed_state"
    by (simp_all add: demo_mixed)
  show ?thesis
    using C2_mixed [OF a b, of True]
      C2_mixed [OF a b, of False "''<mixed>''" resp_mixed resp_mixed
        "decryptAssertions_init resp_mixed"]
    by (simp add: demo_sp_checks demo_decode demo_validateRoot demo_decrypt_none
          decryptAssertions_init_def)
qed





subsection \<open>The parent check of the two closures\<close>

text \<open>
  A located element that has a parent other than \<^verbatim>\<open>el\<close> is rejected at once: the
  state, the log of calls included, is as before.
\<close>

lemma wrong_parent_rejected:
  assumes "Parent x = Some (pa, ptag)" and "pa \<noteq> addr (el s)"
  shows "decryptAssertion env sp ctx x s =
           (s, Error (Errorf_s ''found encrypted assertion with unexpected parent element: %s''
                        ptag))"
    and "validateAssertion env sp ctx x s' =
           (if pa \<noteq> addr (el s') then
              (s', Error (Errorf_s ''found assertion with unexpected parent element: %s'' ptag))
            else validateAssertion env sp ctx x s')"
  using assms
  by (simp_all add: decryptAssertion_def validateAssertion_def Parent_addr_def)

lemma parentless_panics:
  assumes "Parent x = None"
  shows "decryptAssertion env sp ctx x s = (s, Panicked nil_dereference)"
    and "validateAssertion env sp ctx x s' = (s', Panicked nil_dereference)"
  using assms
  by (simp_all add: decryptAssertion_def validateAssertion_def Parent_addr_def)

text \<open>
  C3. An assertion or encrypted assertion that the search locates and whose parent is
  not the response element is to make the pass return the error "unexpected parent
  element". The element the search visits first is the response element itself, and
  the root of a validated document has no parent: when its tag is the one searched
  for, lines 98 and 156 read the \<^verbatim>\<open>Tag\<close> of the nil parent, and the pass panics where
  the error was to be returned. Here on a validly signed document whose root is an
  assertion, and on an encrypted assertion without parent.
\<close>

theorem C3_parentless_element_panics:
  "validateAssertion demo_env demo_sp [] (copy_el 200 assertion_root)
       (validateAssertionSignatures_init (copy_el 200 assertion_root)) =
     (validateAssertionSignatures_init (copy_el 200 assertion_root),
      Panicked ''invalid memory address or nil pointer dereference'')
   \<and> snd (validateAssertionSignatures demo_env demo_sp (copy_el 200 assertion_root)) =
       Panicked ''invalid memory address or nil pointer dereference''
   \<and> validateRoot demo_env demo_sp assertion_root = Ok (copy_el 200 assertion_root, True)
   \<and> ValidateEncodedResponse demo_env demo_sp ''<assertion>'' =
       Panicked ''invalid memory address or nil pointer dereference''
   \<and> decryptAssertions demo_env demo_sp_key (copy_el 200 enc_A1) =
       (decryptAssertions_init (copy_el 200 enc_A1),
        Panicked ''invalid memory address or nil pointer dereference'')"
  by code_simp

subsection \<open>The decryption pass\<close>







subsection \<open>The decryption key\<close>

lemma key_steps_append:
  "key_steps k st (xs @ ys) =
     (case key_steps k st xs of None \<Rightarrow> None | Some st' \<Rightarrow> key_steps k st' ys)"
  by (induction xs arbitrary: st) (auto split: option.splits)

lemma key_steps_lookups:
  "key_steps k (r, u) cs = Some (r', u') \<Longrightarrow>
     key_lookups cs = (if r' \<and> \<not> r then 1 else 0) \<and> (r \<longrightarrow> r')"
proof (induction cs arbitrary: r u)
  case Nil
  then show ?case by (auto simp: key_lookups_def)
next
  case (Cons c cs)
  from Cons.prems obtain r1 u1 where st: "key_step k (r, u) c = Some (r1, u1)"
    and rest: "key_steps k (r1, u1) cs = Some (r', u')"
    by (auto split: option.splits)
  from Cons.IH [OF rest]
  have ih: "key_lookups cs = (if r' \<and> \<not> r1 then 1 else 0)" "r1 \<longrightarrow> r'" by auto
  from st have "(c = CallGetDecryptCert \<and> \<not> r \<and> r1) \<or> (c \<noteq> CallGetDecryptCert \<and> r1 = r)"
    by (cases c) (auto split: if_splits)
  then show ?case using ih by (auto simp: key_lookups_def)
qed

lemma key_lazy_once_lookups: "key_lazy_once k cs \<Longrightarrow> key_lookups cs \<le> 1"
  by (auto simp: key_lazy_once_def dest: key_steps_lookups)

lemma decryptAssertion_key_inv:
  assumes "key_inv sp s" and "decryptAssertion env sp ctx x s = (s', r)"
  shows "key_lazy_once (getDecryptCert sp) (calls s') \<and> (r = Ok () \<longrightarrow> key_inv sp s')"
  using assms
  unfolding decryptAssertion_def resolveDecryptCert_def replaceEncrypted_def key_inv_def
    key_lazy_once_def log_call_def Let_def
  by (auto simp: key_steps_append split: if_splits option.splits sum.splits prod.splits)

lemma decryptAssertions_key_lazy_once:
  "key_lazy_once (getDecryptCert sp) (calls (fst (decryptAssertions env sp e)))"
proof -
  obtain s' r where run: "decryptAssertions env sp e = (s', r)"
    by (cases "decryptAssertions env sp e")
  have init: "key_inv sp (decryptAssertions_init e)"
    by (auto simp: key_inv_def decryptAssertions_init_def)
  have ij: "\<And>s. key_inv sp s \<Longrightarrow> key_lazy_once (getDecryptCert sp) (calls s)"
    by (auto simp: key_inv_def key_lazy_once_def)
  have "key_lazy_once (getDecryptCert sp) (calls s')"
    by (rule NSFindIterate_invariant
          [where I = "key_inv sp" and J = "\<lambda>s. key_lazy_once (getDecryptCert sp) (calls s)",
            OF decryptAssertion_key_inv ij init run [unfolded decryptAssertions_def]])
  with run show ?thesis by simp
qed

text \<open>
  C8. In one pass the calls keep the discipline of a key resolved lazily and once:
  \<^verbatim>\<open>getDecryptCert\<close> is called at most once, and only directly after an encrypted
  assertion has been unmarshalled; every decryption comes after it with the
  certificate it returned. The closure calls it only while \<^verbatim>\<open>decryptCert\<close> is nil and
  keeps what it returns; with no key store it returns the error "no decryption certs
  available".
\<close>

theorem C8_key_resolved_lazily_once:
  "key_lazy_once (getDecryptCert sp) (calls (fst (decryptAssertions env sp e)))
   \<and> key_lookups (calls (fst (decryptAssertions env sp e))) \<le> 1
   \<and> (decryptCert s = Some c \<longrightarrow> resolveDecryptCert sp s = (s, Inr c))
   \<and> (decryptCert s = None \<longrightarrow>
        calls (fst (resolveDecryptCert sp s)) = calls s @ [CallGetDecryptCert]
        \<and> snd (resolveDecryptCert sp s) = getDecryptCert sp
        \<and> decryptCert (fst (resolveDecryptCert sp s)) =
            (case getDecryptCert sp of Inl err \<Rightarrow> None | Inr c \<Rightarrow> Some c))
   \<and> (SPKeyStore sp = None \<longrightarrow>
        getDecryptCert sp = Inl (Errorf ''no decryption certs available''))"
proof -
  have a: "key_lazy_once (getDecryptCert sp) (calls (fst (decryptAssertions env sp e)))"
    by (rule decryptAssertions_key_lazy_once)
  have b: "key_lookups (calls (fst (decryptAssertions env sp e))) \<le> 1"
    by (rule key_lazy_once_lookups [OF a])
  have c: "decryptCert s = Some c \<longrightarrow> resolveDecryptCert sp s = (s, Inr c)"
    by (simp add: resolveDecryptCert_def)
  have d: "decryptCert s = None \<longrightarrow>
        calls (fst (resolveDecryptCert sp s)) = calls s @ [CallGetDecryptCert]
        \<and> snd (resolveDecryptCert sp s) = getDecryptCert sp
        \<and> decryptCert (fst (resolveDecryptCert sp s)) =
            (case getDecryptCert sp of Inl err \<Rightarrow> None | Inr c \<Rightarrow> Some c)"
    by (simp add: resolveDecryptCert_def log_call_def split: sum.splits)
  have e: "SPKeyStore sp = None \<longrightarrow>
        getDecryptCert sp = Inl (Errorf ''no decryption certs available'')"
    by (simp add: getDecryptCert_def)
  from a b c d e show ?thesis by blast
qed

lemma demo_decrypted_facts:
  "decryptCert demo_decrypted = Some demo_cert"
  "key_lookups (calls demo_decrypted) = 1"
  "length (filter (\<lambda>c. c = CallDecryptBytes demo_cert) (calls demo_decrypted)) = 2"
  "decryptCert (decryptAssertions_init resp_enc) = None"
  "calls (decryptAssertions_init resp_enc) = []"
  "SPKeyStore demo_sp = None"
  by code_simp+

theorem C8_key_resolved_lazily_once_witness:
  "key_lazy_once (getDecryptCert demo_sp_key) (calls demo_decrypted)
   \<and> key_lookups (calls demo_decrypted) = 1
   \<and> length (filter (\<lambda>c. c = CallDecryptBytes demo_cert) (calls demo_decrypted)) = 2
   \<and> resolveDecryptCert demo_sp_key demo_decrypted = (demo_decrypted, Inr demo_cert)
   \<and> calls (fst (resolveDecryptCert demo_sp_key (decryptAssertions_init resp_enc))) =
       [CallGetDecryptCert]
   \<and> getDecryptCert demo_sp = Inl (Errorf ''no decryption certs available'')"
  using C8_key_resolved_lazily_once [where sp = demo_sp_key and env = demo_env
      and e = resp_enc and s = demo_decrypted and c = demo_cert]
    C8_key_resolved_lazily_once [where sp = demo_sp_key and env = demo_env
      and e = resp_enc and s = "decryptAssertions_init resp_enc"]
    C8_key_resolved_lazily_once [where sp = demo_sp and env = demo_env and e = resp_enc]
    demo_decrypted_facts
  by (simp add: demo_decrypted_def)

subsection \<open>A response without encrypted assertion\<close>

lemma decryptAssertions_none_located:
  assumes "located env (SAMLAssertionNamespace env) (EncryptedAssertionTag env) e = []"
  shows "decryptAssertions env sp e =
           (decryptAssertions_init e,
            snd (NSFindIterate env (SAMLAssertionNamespace env) (EncryptedAssertionTag env)
                   collectElement \<lparr>el = e, calls = [], found = []\<rparr>))"
  unfolding decryptAssertions_def
  by (rule none_located_NSFindIterate)
     (use assms in \<open>simp_all add: located_def decryptAssertions_init_def\<close>)

text \<open>
  C10. When the search locates no encrypted assertion in the response element, the
  decryption pass makes no call at all: the state it returns is the initial one, with no
  call logged, and what it returns is the same with no key store. So a call of
  \<^verbatim>\<open>getDecryptCert\<close>, the only place that makes the error "no decryption certs
  available", occurs only where the search locates an encrypted assertion.
\<close>

theorem C10_no_encrypted_assertion_no_key:
  "(located env (SAMLAssertionNamespace env) (EncryptedAssertionTag env) e = [] \<longrightarrow>
      fst (decryptAssertions env sp e) = decryptAssertions_init e
      \<and> calls (fst (decryptAssertions env sp e)) = []
      \<and> decryptAssertions env sp e = decryptAssertions env (sp\<lparr>SPKeyStore := None\<rparr>) e)
   \<and> (CallGetDecryptCert \<in> set (calls (fst (decryptAssertions env sp e))) \<longrightarrow>
      located env (SAMLAssertionNamespace env) (EncryptedAssertionTag env) e \<noteq> [])"
  using decryptAssertions_none_located [of env e sp]
    decryptAssertions_none_located [of env e "sp\<lparr>SPKeyStore := None\<rparr>"]
  by (auto simp: decryptAssertions_init_def)

lemma demo_located:
  "located demo_env (SAMLAssertionNamespace demo_env) (EncryptedAssertionTag demo_env)
     (copy_el 200 resp_signed) = []"
  "CallGetDecryptCert \<in> set (calls (fst (decryptAssertions demo_env demo_sp resp_enc)))"
  "ValidateEncodedResponse demo_env demo_sp ''<signed>'' = Ok demo_response"
  "decryptAssertions demo_env demo_sp resp_enc =
     (\<lparr>el = resp_enc,
       calls = [CallNSDetatch 2, CallUnmarshal 102, CallGetDecryptCert],
       decryptCert = None\<rparr>,
      Error (Errorf_v ''unable to get decryption certificate: %v''
               (Some (Errorf ''no decryption certs available''))))"
  by code_simp+

theorem C10_no_encrypted_assertion_no_key_witness:
  "fst (decryptAssertions demo_env demo_sp_key (copy_el 200 resp_signed)) =
     decryptAssertions_init (copy_el 200 resp_signed)
   \<and> decryptAssertions demo_env demo_sp_key (copy_el 200 resp_signed) =
       decryptAssertions demo_env (demo_sp_key\<lparr>SPKeyStore := None\<rparr>) (copy_el 200 resp_signed)
   \<and> SPKeyStore demo_sp = None
   \<and> ValidateEncodedResponse demo_env demo_sp ''<signed>'' = Ok demo_response
   \<and> located demo_env (SAMLAssertionNamespace demo_env) (EncryptedAssertionTag demo_env)
       resp_enc \<noteq> []
   \<and> snd (decryptAssertions demo_env demo_sp resp_enc) =
       Error (Errorf_v ''unable to get decryption certificate: %v''
                (Some (Errorf ''no decryption certs available'')))"
proof -
  from C10_no_encrypted_assertion_no_key [of demo_env "copy_el 200 resp_signed" demo_sp_key]
    demo_located(1)
  have a: "fst (decryptAssertions demo_env demo_sp_key (copy_el 200 resp_signed)) =
        decryptAssertions_init (copy_el 200 resp_signed)
      \<and> decryptAssertions demo_env demo_sp_key (copy_el 200 resp_signed) =
        decryptAssertions demo_env (demo_sp_key\<lparr>SPKeyStore := None\<rparr>)
          (copy_el 200 resp_signed)"
    by blast
  from C10_no_encrypted_assertion_no_key [of demo_env resp_enc demo_sp] demo_located(2)
  have b: "located demo_env (SAMLAssertionNamespace demo_env) (EncryptedAssertionTag demo_env)
       resp_enc \<noteq> []"
    by blast
  have c: "snd (decryptAssertions demo_env demo_sp resp_enc) =
       Error (Errorf_v ''unable to get decryption certificate: %v''
                (Some (Errorf ''no decryption certs available'')))"
    by (simp add: demo_located(4))
  from a b c demo_located(3) demo_decrypted_facts(6) show ?thesis by blast
qed

end
